theory Spec2Isabelle
  imports Main "HOL-Library.AList"
begin

section \<open>Values, exceptions and the remote client\<close>

text \<open>
  The functions of \<^verbatim>\<open>utils.py\<close> walk the decoded JSON responses of the remote
  service. A decoded response is a Python value: \<^verbatim>\<open>None\<close>, a bool, a number, a
  string, a list or a dict. A dict keeps its keys in insertion order, so it is an
  association list; a lookup reads the first pair with the key.
\<close>

datatype json =
    JNull
  | JBool bool
  | JNum int
  | JStr string
  | JList "json list"
  | JObj "(string \<times> json) list"

text \<open>
  The exceptions that can travel through the code. \<open>HttpError status content\<close> is the
  client library's error; \<open>KeyboardInterrupt\<close> stands for the exceptions that are not
  subclasses of \<^verbatim>\<open>Exception\<close>.
\<close>

datatype error =
    HttpError string string
  | KeyError string
  | TypeError
  | AttributeError
  | NameError string
  | ValueError
  | KeyboardInterrupt
  | OtherError string

text \<open>The four remote calls the module builds, with the keyword arguments it passes.\<close>

datatype request =
    SearchList string string nat string
      \<comment> \<open>\<^verbatim>\<open>search().list(q, part, maxResults, type)\<close>\<close>
  | ChannelsList string string
      \<comment> \<open>\<^verbatim>\<open>channels().list(part, id)\<close>\<close>
  | PlaylistItemsList string string nat "json option"
      \<comment> \<open>\<^verbatim>\<open>playlistItems().list(part, playlistId, maxResults, pageToken)\<close>;
          no \<^verbatim>\<open>pageToken\<close> argument is \<open>None\<close>\<close>
  | VideosList string string
      \<comment> \<open>\<^verbatim>\<open>videos().list(part, id)\<close>\<close>

text \<open>
  The client is an object of the caller: \<^verbatim>\<open>request.execute()\<close> answers with a decoded
  response or raises, and may change the client's own state.
\<close>

type_synonym 's client = "request \<Rightarrow> 's \<Rightarrow> (error + json) \<times> 's"

text \<open>
  What a call can touch: the client's state, the record of the remote calls made so far
  (each with its outcome), and the lines printed. A printed line is kept as its format
  and the exception it renders.
\<close>

datatype line =
    HttpReport error  \<comment> \<open>\<^verbatim>\<open>An HTTP error {e.resp.status} occurred:\n{e.content}\<close>\<close>
  | ErrorReport error  \<comment> \<open>\<^verbatim>\<open>An error occurred: {e}\<close>\<close>

record 's world =
  remote :: 's
  calls :: "(request \<times> (error + json)) list"
  stdout :: "line list"

definition execute :: "'s client \<Rightarrow> request \<Rightarrow> 's world \<Rightarrow> (error + json) \<times> 's world" where
  "execute exec req w =
     (case exec req (remote w) of
        (out, r) \<Rightarrow> (out, w\<lparr>remote := r, calls := calls w @ [(req, out)]\<rparr>))"

subsection \<open>Python operations on decoded values\<close>

text \<open>\<^verbatim>\<open>x[k]\<close> with a string key: only a dict accepts it, and raises KeyError without the key.\<close>

definition subscript :: "json \<Rightarrow> string \<Rightarrow> error + json" where
  "subscript x k =
     (case x of
        JObj kvs \<Rightarrow> (case map_of kvs k of None \<Rightarrow> Inl (KeyError k) | Some v \<Rightarrow> Inr v)
      | _ \<Rightarrow> Inl TypeError)"

text \<open>\<^verbatim>\<open>x.get(k, d)\<close>: a method of dicts only.\<close>

definition py_get :: "json \<Rightarrow> string \<Rightarrow> json \<Rightarrow> error + json" where
  "py_get x k d =
     (case x of
        JObj kvs \<Rightarrow> (case map_of kvs k of None \<Rightarrow> Inr d | Some v \<Rightarrow> Inr v)
      | _ \<Rightarrow> Inl AttributeError)"

text \<open>
  \<^verbatim>\<open>for item in x\<close>: a list gives its elements, a dict its keys, a string its
  characters; nothing else is iterable.
\<close>

definition py_iter :: "json \<Rightarrow> error + json list" where
  "py_iter x =
     (case x of
        JList xs \<Rightarrow> Inr xs
      | JObj kvs \<Rightarrow> Inr (map (\<lambda>kv. JStr (fst kv)) kvs)
      | JStr s \<Rightarrow> Inr (map (\<lambda>c. JStr [c]) s)
      | _ \<Rightarrow> Inl TypeError)"

text \<open>\<^verbatim>\<open>sep.join(xs)\<close> on a list of strings.\<close>

fun join :: "string \<Rightarrow> string list \<Rightarrow> string" where
  "join sep [] = []"
| "join sep [x] = x"
| "join sep (x # y # ys) = x @ sep @ join sep (y # ys)"

subsection \<open>Tables\<close>

text \<open>
  \<^verbatim>\<open>pd.DataFrame(records)\<close> on a list of dicts: the columns are the keys of the
  records in the order of their first appearance, and there is one row per record, with
  no value where the record lacks the column. On the empty list there is no record to
  take a key from.
\<close>

record dataframe =
  df_columns :: "string list"
  df_rows :: "json option list list"

fun first_seen :: "string list \<Rightarrow> string list \<Rightarrow> string list" where
  "first_seen seen [] = seen"
| "first_seen seen (k # ks) = first_seen (if k \<in> set seen then seen else seen @ [k]) ks"

definition DataFrame :: "(string \<times> json) list list \<Rightarrow> dataframe" where
  "DataFrame records =
     (let cols = first_seen [] (concat (map (map fst) records))
      in \<lparr>df_columns = cols, df_rows = map (\<lambda>r. map (map_of r) cols) records\<rparr>)"

section \<open>get\_channel\_stats\<close>

text \<open>Sequencing of steps that may raise: the first exception ends the computation.\<close>

definition bind_err :: "error + 'a \<Rightarrow> ('a \<Rightarrow> error + 'b) \<Rightarrow> error + 'b" where
  "bind_err m f = (case m of Inl e \<Rightarrow> Inl e | Inr x \<Rightarrow> f x)"

text \<open>\<^verbatim>\<open>x[k1][k2]\<close>.\<close>

definition subscript2 :: "json \<Rightarrow> string \<Rightarrow> string \<Rightarrow> error + json" where
  "subscript2 x k1 k2 = bind_err (subscript x k1) (\<lambda>g. subscript g k2)"

text \<open>The body of the loop over \<^verbatim>\<open>response['items']\<close>: one dict per item.\<close>

definition channel_data :: "json \<Rightarrow> error + (string \<times> json) list" where
  "channel_data item =
     bind_err (subscript2 item ''snippet'' ''title'') (\<lambda>title.
     bind_err (subscript2 item ''statistics'' ''subscriberCount'') (\<lambda>subs.
     bind_err (subscript2 item ''statistics'' ''viewCount'') (\<lambda>views.
     bind_err (subscript2 item ''statistics'' ''videoCount'') (\<lambda>vids.
     bind_err (bind_err (subscript2 item ''contentDetails'' ''relatedPlaylists'')
                 (\<lambda>rp. subscript rp ''uploads'')) (\<lambda>up.
       Inr [(''channelName'', title), (''subscribers'', subs), (''views'', views),
            (''totalVideos'', vids), (''playlistId'', up)])))))"

text \<open>A \<^verbatim>\<open>for\<close> loop that appends one record per element and stops at the first raise.\<close>

fun collect :: "(json \<Rightarrow> error + 'a) \<Rightarrow> json list \<Rightarrow> 'a list \<Rightarrow> error + 'a list" where
  "collect f [] acc = Inr acc"
| "collect f (x # xs) acc =
     (case f x of Inl e \<Rightarrow> Inl e | Inr y \<Rightarrow> collect f xs (acc @ [y]))"

definition channels_request :: "string list \<Rightarrow> request" where
  "channels_request channel_ids =
     ChannelsList ''snippet,contentDetails,statistics'' (join '','' channel_ids)"

definition get_channel_stats ::
  "'s client \<Rightarrow> string list \<Rightarrow> 's world \<Rightarrow> (error + dataframe) \<times> 's world" where
  "get_channel_stats exec channel_ids w =
     (case execute exec (channels_request channel_ids) w of
        (Inl e, w1) \<Rightarrow> (Inl e, w1)
      | (Inr response, w1) \<Rightarrow>
          (bind_err (subscript response ''items'') (\<lambda>its.
           bind_err (py_iter its) (\<lambda>items.
           bind_err (collect channel_data items []) (\<lambda>all_data.
             Inr (DataFrame all_data)))), w1))"

section \<open>get\_channel\_id\_by\_name\<close>

text \<open>
  The names bound at module level are the import \<^verbatim>\<open>pd\<close> and the four functions; the
  module imports nothing else. A name that is neither a local, a module name nor a builtin
  raises NameError when it is evaluated. Of the builtins, the ones the module uses are
  listed.
\<close>

definition module_names :: "string list" where
  "module_names = [''pd'', ''get_channel_id_by_name'', ''get_channel_stats'',
     ''get_video_ids'', ''get_video_details'']"

definition builtin_names :: "string list" where
  "builtin_names = [''Exception'', ''print'', ''len'', ''range'']"

definition load_name :: "string \<Rightarrow> error + unit" where
  "load_name n =
     (if n \<in> set module_names \<or> n \<in> set builtin_names then Inr () else Inl (NameError n))"

text \<open>Which raised values an \<^verbatim>\<open>except\<close> clause of the class matches.\<close>

fun is_HttpError :: "error \<Rightarrow> bool" where
  "is_HttpError (HttpError status content) = True"
| "is_HttpError e = False"

fun is_Exception :: "error \<Rightarrow> bool" where
  "is_Exception KeyboardInterrupt = False"
| "is_Exception e = True"

definition search_request :: "string \<Rightarrow> request" where
  "search_request channel_name = SearchList channel_name ''id,snippet'' 1 ''channel''"

text \<open>The loop over the search results; \<open>Some\<close> is the \<^verbatim>\<open>return\<close> inside the loop.\<close>

fun search_loop :: "json list \<Rightarrow> error + (json \<times> json) option" where
  "search_loop [] = Inr None"
| "search_loop (search_result # rest) =
     bind_err (subscript2 search_result ''id'' ''kind'') (\<lambda>kind.
       if kind = JStr ''youtube#channel'' then
         bind_err (subscript2 search_result ''id'' ''channelId'') (\<lambda>channel_id.
         bind_err (subscript2 search_result ''snippet'' ''title'') (\<lambda>title.
           Inr (Some (channel_id, title))))
       else search_loop rest)"

text \<open>The body of the \<^verbatim>\<open>try\<close> statement.\<close>

definition try_body ::
  "'s client \<Rightarrow> string \<Rightarrow> 's world \<Rightarrow> (error + (json \<times> json) option) \<times> 's world" where
  "try_body exec channel_name w =
     (case execute exec (search_request channel_name) w of
        (Inl e, w1) \<Rightarrow> (Inl e, w1)
      | (Inr search_response, w1) \<Rightarrow>
          (bind_err (py_get search_response ''items'' (JList [])) (\<lambda>its.
           bind_err (py_iter its) search_loop), w1))"

text \<open>
  The \<^verbatim>\<open>except\<close> clauses, tried in order when the body raised \<open>exn\<close>: each evaluates
  its class expression first, then matches. A handler prints and falls through to the
  final \<^verbatim>\<open>return None, None\<close>.
\<close>

definition handlers :: "error \<Rightarrow> 's world \<Rightarrow> (error + json \<times> json) \<times> 's world" where
  "handlers exn w =
     (case load_name ''HttpError'' of
        Inl name_error \<Rightarrow> (Inl name_error, w)
      | Inr _ \<Rightarrow>
          if is_HttpError exn
          then (Inr (JNull, JNull), w\<lparr>stdout := stdout w @ [HttpReport exn]\<rparr>)
          else (case load_name ''Exception'' of
                  Inl name_error \<Rightarrow> (Inl name_error, w)
                | Inr _ \<Rightarrow>
                    if is_Exception exn
                    then (Inr (JNull, JNull), w\<lparr>stdout := stdout w @ [ErrorReport exn]\<rparr>)
                    else (Inl exn, w)))"

definition get_channel_id_by_name ::
  "'s client \<Rightarrow> string \<Rightarrow> 's world \<Rightarrow> (error + json \<times> json) \<times> 's world" where
  "get_channel_id_by_name exec channel_name w =
     (case try_body exec channel_name w of
        (Inr (Some found), w1) \<Rightarrow> (Inr found, w1)
      | (Inr None, w1) \<Rightarrow> (Inr (JNull, JNull), w1)
      | (Inl exn, w1) \<Rightarrow> handlers exn w1)"

section \<open>get\_video\_ids\<close>

definition playlist_request :: "string \<Rightarrow> json option \<Rightarrow> request" where
  "playlist_request playlist_id page_token =
     PlaylistItemsList ''snippet, contentDetails'' playlist_id 50 page_token"

definition video_id_of :: "json \<Rightarrow> error + json" where
  "video_id_of item = subscript2 item ''contentDetails'' ''videoId''"

text \<open>The \<^verbatim>\<open>for item in response["items"]\<close> loop, appending to \<open>video_ids\<close>.\<close>

definition append_ids :: "json \<Rightarrow> json list \<Rightarrow> error + json list" where
  "append_ids response video_ids =
     bind_err (subscript response ''items'') (\<lambda>its.
     bind_err (py_iter its) (\<lambda>items.
       collect video_id_of items video_ids))"

text \<open>
  The \<^verbatim>\<open>while next_page_token is not None\<close> loop. Nothing bounds the number of
  iterations, so the loop is a partial function: \<open>None\<close> is a loop that never ends.
\<close>

partial_function (option) page_loop ::
  "'s client \<Rightarrow> string \<Rightarrow> json \<Rightarrow> json list \<Rightarrow> 's world
     \<Rightarrow> ((error + json list) \<times> 's world) option" where
  "page_loop exec playlist_id next_page_token video_ids w =
     (if next_page_token \<noteq> JNull then
        (case execute exec (playlist_request playlist_id (Some next_page_token)) w of
           (Inl e, w1) \<Rightarrow> Some (Inl e, w1)
         | (Inr response, w1) \<Rightarrow>
             (case append_ids response video_ids of
                Inl e \<Rightarrow> Some (Inl e, w1)
              | Inr video_ids' \<Rightarrow>
                  (case py_get response ''nextPageToken'' JNull of
                     Inl e \<Rightarrow> Some (Inl e, w1)
                   | Inr token \<Rightarrow> page_loop exec playlist_id token video_ids' w1)))
      else Some (Inr video_ids, w))"

definition get_video_ids ::
  "'s client \<Rightarrow> string \<Rightarrow> 's world \<Rightarrow> ((error + json list) \<times> 's world) option" where
  "get_video_ids exec playlist_id w =
     (case execute exec (playlist_request playlist_id None) w of
        (Inl e, w1) \<Rightarrow> Some (Inl e, w1)
      | (Inr response, w1) \<Rightarrow>
          (case append_ids response [] of
             Inl e \<Rightarrow> Some (Inl e, w1)
           | Inr video_ids \<Rightarrow>
               (case py_get response ''nextPageToken'' JNull of
                  Inl e \<Rightarrow> Some (Inl e, w1)
                | Inr token \<Rightarrow> page_loop exec playlist_id token video_ids w1)))"

section \<open>get\_video\_details\<close>

text \<open>\<^verbatim>\<open>range(start, stop, step)\<close> for a positive step, as a list.\<close>

function py_range :: "nat \<Rightarrow> nat \<Rightarrow> nat \<Rightarrow> nat list" where
  "py_range start stop step =
     (if start < stop \<and> 0 < step then start # py_range (start + step) stop step else [])"
  by pat_completeness auto
termination
  by (relation "measure (\<lambda>(start, stop, step). stop - start)") auto

declare py_range.simps [simp del]

text \<open>\<^verbatim>\<open>xs[i:j]\<close> for \<open>0 \<le> i \<le> j\<close>: a slice stops at the end of the list.\<close>

definition slice :: "'a list \<Rightarrow> nat \<Rightarrow> nat \<Rightarrow> 'a list" where
  "slice xs i j = take (j - i) (drop i xs)"

definition videos_request :: "string list \<Rightarrow> request" where
  "videos_request batch =
     VideosList ''snippet,contentDetails,statistics'' (join '','' batch)"

definition stats_to_keep :: "(string \<times> string list) list" where
  "stats_to_keep =
     [(''snippet'', [''channelTitle'', ''title'', ''description'', ''tags'', ''publishedAt'']),
      (''statistics'', [''viewCount'', ''likeCount'', ''favoriteCount'', ''commentCount'']),
      (''contentDetails'', [''duration'', ''definition'', ''caption''])]"

text \<open>
  \<^verbatim>\<open>try: video_info[v] = video[k][v]\<close> with \<^verbatim>\<open>except KeyError: video_info[v] = None\<close>:
  the value to store. Only a KeyError is caught.
\<close>

definition lookup_or_none :: "json \<Rightarrow> string \<Rightarrow> string \<Rightarrow> error + json" where
  "lookup_or_none video k v =
     (case subscript2 video k v of
        Inl (KeyError key) \<Rightarrow> Inr JNull
      | Inl e \<Rightarrow> Inl e
      | Inr x \<Rightarrow> Inr x)"

text \<open>
  The two nested loops over \<open>stats_to_keep\<close>. Storing under a key of a dict replaces the
  value of a key already there and appends a new key at the end.
\<close>

fun fill_group ::
  "json \<Rightarrow> string \<Rightarrow> string list \<Rightarrow> (string \<times> json) list \<Rightarrow> error + (string \<times> json) list" where
  "fill_group video k [] video_info = Inr video_info"
| "fill_group video k (v # vs) video_info =
     bind_err (lookup_or_none video k v) (\<lambda>x.
       fill_group video k vs (AList.update v x video_info))"

fun fill_groups ::
  "json \<Rightarrow> (string \<times> string list) list \<Rightarrow> (string \<times> json) list
     \<Rightarrow> error + (string \<times> json) list" where
  "fill_groups video [] video_info = Inr video_info"
| "fill_groups video ((k, vs) # groups) video_info =
     bind_err (fill_group video k vs video_info) (fill_groups video groups)"

text \<open>The body of the loop over \<^verbatim>\<open>response['items']\<close>: one record per video.\<close>

definition video_record :: "json \<Rightarrow> error + (string \<times> json) list" where
  "video_record video =
     bind_err (subscript video ''id'') (\<lambda>video_id.
       fill_groups video stats_to_keep [(''video_id'', video_id)])"

definition append_records ::
  "json \<Rightarrow> (string \<times> json) list list \<Rightarrow> error + (string \<times> json) list list" where
  "append_records response all_video_info =
     bind_err (subscript response ''items'') (\<lambda>its.
     bind_err (py_iter its) (\<lambda>items.
       collect video_record items all_video_info))"

text \<open>The loop over the offsets \<^verbatim>\<open>range(0, len(video_ids), 50)\<close>.\<close>

fun batch_loop ::
  "'s client \<Rightarrow> string list \<Rightarrow> nat list \<Rightarrow> (string \<times> json) list list \<Rightarrow> 's world
     \<Rightarrow> (error + (string \<times> json) list list) \<times> 's world" where
  "batch_loop exec video_ids [] all_video_info w = (Inr all_video_info, w)"
| "batch_loop exec video_ids (i # offsets) all_video_info w =
     (case execute exec (videos_request (slice video_ids i (i + 50))) w of
        (Inl e, w1) \<Rightarrow> (Inl e, w1)
      | (Inr response, w1) \<Rightarrow>
          (case append_records response all_video_info of
             Inl e \<Rightarrow> (Inl e, w1)
           | Inr all_video_info' \<Rightarrow> batch_loop exec video_ids offsets all_video_info' w1))"

definition get_video_details ::
  "'s client \<Rightarrow> string list \<Rightarrow> 's world \<Rightarrow> (error + dataframe) \<times> 's world" where
  "get_video_details exec video_ids w =
     (case batch_loop exec video_ids (py_range 0 (length video_ids) 50) [] w of
        (Inl e, w1) \<Rightarrow> (Inl e, w1)
      | (Inr all_video_info, w1) \<Rightarrow> (Inr (DataFrame all_video_info), w1))"

section \<open>Notions of the specification\<close>

text \<open>
  The value of attribute \<open>attr\<close> in the nested group \<open>grp\<close> of a response item, when
  the item has the group and the group has the attribute.
\<close>

definition nested :: "json \<Rightarrow> string \<Rightarrow> string \<Rightarrow> json option" where
  "nested x grp attr =
     (case x of
        JObj kvs \<Rightarrow> (case map_of kvs grp of Some (JObj g) \<Rightarrow> map_of g attr | _ \<Rightarrow> None)
      | _ \<Rightarrow> None)"

text \<open>The value, or the absent marker.\<close>

definition or_absent :: "json option \<Rightarrow> json" where
  "or_absent v = (case v of None \<Rightarrow> JNull | Some x \<Rightarrow> x)"

text \<open>A group that is there is an object: the shape of the items of the remote interface.\<close>

definition group_shaped :: "(string \<times> json) list \<Rightarrow> string \<Rightarrow> bool" where
  "group_shaped kvs grp =
     (case map_of kvs grp of None \<Rightarrow> True | Some (JObj g) \<Rightarrow> True | Some other \<Rightarrow> False)"

text \<open>The fixed column set of the table of video details.\<close>

definition video_columns :: "string list" where
  "video_columns = [''video_id'', ''channelTitle'', ''title'', ''description'', ''tags'',
     ''publishedAt'', ''viewCount'', ''likeCount'', ''favoriteCount'', ''commentCount'',
     ''duration'', ''definition'', ''caption'']"

subsection \<open>Search results\<close>

text \<open>The results of a search response; a response without results has none.\<close>

definition search_items :: "json \<Rightarrow> json list option" where
  "search_items response =
     (case response of
        JObj kvs \<Rightarrow>
          (case map_of kvs ''items'' of
             None \<Rightarrow> Some [] | Some (JList its) \<Rightarrow> Some its | Some other \<Rightarrow> None)
      | _ \<Rightarrow> None)"

definition is_channel :: "json \<Rightarrow> bool" where
  "is_channel result = (nested result ''id'' ''kind'' = Some (JStr ''youtube#channel''))"

text \<open>
  A result of the search interface carries its kind, and a channel-kind result its
  identifier and title.
\<close>

definition search_result_shaped :: "json \<Rightarrow> bool" where
  "search_result_shaped result =
     (nested result ''id'' ''kind'' \<noteq> None \<and>
      (is_channel result \<longrightarrow>
         nested result ''id'' ''channelId'' \<noteq> None \<and>
         nested result ''snippet'' ''title'' \<noteq> None))"

text \<open>The identifier and title of a result that carries both.\<close>

definition channel_of :: "json \<Rightarrow> (json \<times> json) option" where
  "channel_of result =
     (case nested result ''id'' ''channelId'' of
        None \<Rightarrow> None
      | Some channel_id \<Rightarrow>
          (case nested result ''snippet'' ''title'' of
             None \<Rightarrow> None
           | Some title \<Rightarrow> Some (channel_id, title)))"

subsection \<open>Pages of a collection\<close>

text \<open>
  The item references of a page, in page order, when the page is an object whose items
  are a list and every item carries a reference.
\<close>

definition page_refs :: "json \<Rightarrow> json list option" where
  "page_refs page =
     (case page of
        JObj kvs \<Rightarrow>
          (case map_of kvs ''items'' of
             Some (JList its) \<Rightarrow> those (map (\<lambda>it. nested it ''contentDetails'' ''videoId'') its)
           | _ \<Rightarrow> None)
      | _ \<Rightarrow> None)"

text \<open>The continuation token of a page; \<open>JNull\<close> when the page carries none.\<close>

definition page_token :: "json \<Rightarrow> json" where
  "page_token page =
     (case page of
        JObj kvs \<Rightarrow> (case map_of kvs ''nextPageToken'' of None \<Rightarrow> JNull | Some t \<Rightarrow> t)
      | _ \<Rightarrow> JNull)"

text \<open>
  \<open>follow exec playlist_id token s pages = Some (out, s')\<close>: asked for the pages of the
  collection from \<open>token\<close> on in state \<open>s\<close>, the client answers with \<open>pages\<close>, each
  well-formed and carrying the continuation token that the next request passes on, and
  answers the request after them with \<open>out\<close>, which leaves it in state \<open>s'\<close>.
\<close>

fun follow ::
  "'s client \<Rightarrow> string \<Rightarrow> json option \<Rightarrow> 's \<Rightarrow> json list \<Rightarrow> ((error + json) \<times> 's) option" where
  "follow exec playlist_id token s [] = Some (exec (playlist_request playlist_id token) s)"
| "follow exec playlist_id token s (page # pages) =
     (case exec (playlist_request playlist_id token) s of
        (Inr response, s1) \<Rightarrow>
          if response = page \<and> page_refs page \<noteq> None \<and> page_token page \<noteq> JNull
          then follow exec playlist_id (Some (page_token page)) s1 pages
          else None
      | (Inl e, s1) \<Rightarrow> None)"

text \<open>The requests of such an exchange, each with its answer.\<close>

fun dialogue ::
  "string \<Rightarrow> json option \<Rightarrow> json list \<Rightarrow> error + json \<Rightarrow> (request \<times> (error + json)) list" where
  "dialogue playlist_id token [] out = [(playlist_request playlist_id token, out)]"
| "dialogue playlist_id token (page # pages) out =
     (playlist_request playlist_id token, Inr page)
       # dialogue playlist_id (Some (page_token page)) pages out"

text \<open>
  An answer that ends the walk: a fault, or a well-formed page without continuation
  token. With the references \<open>refs\<close> gathered before it, the walk then ends in the fault,
  or in \<open>refs\<close> followed by the references of the last page.
\<close>

definition terminal :: "error + json \<Rightarrow> bool" where
  "terminal out =
     (case out of Inl e \<Rightarrow> True | Inr page \<Rightarrow> page_refs page \<noteq> None \<and> page_token page = JNull)"

definition finish :: "json list \<Rightarrow> error + json \<Rightarrow> error + json list" where
  "finish refs out =
     (case out of
        Inl e \<Rightarrow> Inl e
      | Inr page \<Rightarrow> Inr (refs @ (case page_refs page of None \<Rightarrow> [] | Some rs \<Rightarrow> rs)))"

text \<open>All the references of a sequence of pages, page after page.\<close>

definition all_refs :: "json list \<Rightarrow> json list" where
  "all_refs pages = concat (map (\<lambda>p. case page_refs p of None \<Rightarrow> [] | Some refs \<Rightarrow> refs) pages)"

subsection \<open>Batches\<close>

text \<open>Batch \<open>k\<close> of a list of identifiers: the positions from \<open>50k\<close> up to \<open>50k + 50\<close>.\<close>

definition batch :: "'a list \<Rightarrow> nat \<Rightarrow> 'a list" where
  "batch xs k = map (\<lambda>p. xs ! p) [50 * k ..< min (50 * k + 50) (length xs)]"

definition batch_count :: "'a list \<Rightarrow> nat" where
  "batch_count xs = (length xs + 49) div 50"

text \<open>The number of items of a response.\<close>

definition item_count :: "error + json \<Rightarrow> nat" where
  "item_count out =
     (case out of
        Inr (JObj kvs) \<Rightarrow> (case map_of kvs ''items'' of Some (JList its) \<Rightarrow> length its | _ \<Rightarrow> 0)
      | _ \<Rightarrow> 0)"

subsection \<open>Faults in the record of calls\<close>

text \<open>A fault among the calls made is the last call, and is the result of the operation.\<close>

fun fault_ends :: "(request \<times> (error + json)) list \<Rightarrow> error + 'a \<Rightarrow> bool" where
  "fault_ends [] res = True"
| "fault_ends ((req, Inl e) # tr) res = (tr = [] \<and> res = Inl e)"
| "fault_ends ((req, Inr response) # tr) res = fault_ends tr res"

section \<open>Clients for the examples\<close>

definition w0 :: "unit world" where
  "w0 = \<lparr>remote = (), calls = [], stdout = []\<rparr>"

text \<open>A service with one answer to every call.\<close>

definition answering :: "json \<Rightarrow> unit client" where
  "answering response req s = (Inr response, s)"

text \<open>A service that knows no channel.\<close>

definition no_channels :: "unit client" where
  "no_channels = answering (JObj [(''items'', JList [])])"

text \<open>A service that refuses every call.\<close>

definition quota_exceeded :: "unit client" where
  "quota_exceeded req s = (Inl (HttpError ''403'' ''quotaExceeded''), s)"

text \<open>
  A collection of three pages of 2, 2 and 1 items, with the continuation tokens \<open>A\<close> and
  \<open>B\<close>; the item \<open>v2\<close> is on the first page and again on the second.
\<close>

definition playlist_item :: "string \<Rightarrow> json" where
  "playlist_item v = JObj [(''contentDetails'', JObj [(''videoId'', JStr v)])]"

definition page_A :: json where
  "page_A = JObj [(''items'', JList [playlist_item ''v1'', playlist_item ''v2'']),
                  (''nextPageToken'', JStr ''A'')]"

definition page_B :: json where
  "page_B = JObj [(''items'', JList [playlist_item ''v2'', playlist_item ''v3'']),
                  (''nextPageToken'', JStr ''B'')]"

definition page_C :: json where
  "page_C = JObj [(''items'', JList [playlist_item ''v4''])]"

definition three_pages :: "unit client" where
  "three_pages req s =
     (case req of
        PlaylistItemsList part playlist_id max_results token \<Rightarrow>
          (if token = None then Inr page_A
           else if token = Some (JStr ''A'') then Inr page_B
           else if token = Some (JStr ''B'') then Inr page_C
           else Inl (HttpError ''400'' ''invalidPageToken''), s)
      | _ \<Rightarrow> (Inl (HttpError ''404'' ''notFound''), s))"

text \<open>The same collection behind a service that fails on the third request.\<close>

definition two_pages_then_fault :: "unit client" where
  "two_pages_then_fault req s =
     (case req of
        PlaylistItemsList part playlist_id max_results token \<Rightarrow>
          (if token = None then Inr page_A
           else if token = Some (JStr ''A'') then Inr page_B
           else Inl (HttpError ''503'' ''backendError''), s)
      | _ \<Rightarrow> (Inl (HttpError ''404'' ''notFound''), s))"

text \<open>A service that answers every page request with a page that has a successor.\<close>

definition endless :: "unit client" where
  "endless req s = (Inr page_A, s)"

text \<open>
  A collection of \<open>n\<close> pages of one item each: the service counts the pages it has
  served, and page \<open>k\<close> carries a continuation token unless it is the last one.
\<close>

definition numbered_page :: "nat \<Rightarrow> nat \<Rightarrow> json" where
  "numbered_page n k =
     JObj ((''items'', JList [JObj [(''contentDetails'', JObj [(''videoId'', JNum (int k))])]])
           # (if Suc k < n then [(''nextPageToken'', JNum (int (Suc k)))] else []))"

definition counting :: "nat \<Rightarrow> nat client" where
  "counting n req k = (Inr (numbered_page n k), Suc k)"

text \<open>A service that echoes a bulk request: one item per identifier of the request.\<close>

fun split_commas :: "string \<Rightarrow> string \<Rightarrow> string list" where
  "split_commas word [] = [word]"
| "split_commas word (c # cs) =
     (if c = CHR '','' then word # split_commas [] cs else split_commas (word @ [c]) cs)"

definition echo_item :: "string \<Rightarrow> json" where
  "echo_item v = JObj [(''id'', JStr v), (''snippet'', JObj [(''title'', JStr v)])]"

definition echo :: "unit client" where
  "echo req s =
     (case req of
        VideosList part ids \<Rightarrow> (Inr (JObj [(''items'', JList (map echo_item (split_commas [] ids)))]), s)
      | _ \<Rightarrow> (Inl (HttpError ''404'' ''notFound''), s))"

text \<open>125 distinct identifiers of two letters.\<close>

definition video_name :: "nat \<Rightarrow> string" where
  "video_name n = [''abcdefghijkl'' ! (n div 12), ''abcdefghijkl'' ! (n mod 12)]"

definition ids125 :: "string list" where
  "ids125 = map video_name [0..<125]"

text \<open>A video without tags, and a result of a search.\<close>

definition video_without_tags :: "(string \<times> json) list" where
  "video_without_tags =
     [(''id'', JStr ''dQw4'' ),
      (''snippet'', JObj [(''channelTitle'', JStr ''Channel''), (''title'', JStr ''Title''),
         (''description'', JStr ''About''), (''publishedAt'', JStr ''2020-01-01T00:00:00Z'')]),
      (''statistics'', JObj [(''viewCount'', JStr ''10''), (''likeCount'', JStr ''2''),
         (''favoriteCount'', JStr ''0''), (''commentCount'', JStr ''1'')]),
      (''contentDetails'', JObj [(''duration'', JStr ''PT1M''), (''definition'', JStr ''hd''),
         (''caption'', JStr ''false'')])]"

definition channel_result :: json where
  "channel_result =
     JObj [(''id'', JObj [(''kind'', JStr ''youtube#channel''), (''channelId'', JStr ''UC1'')]),
           (''snippet'', JObj [(''title'', JStr ''A channel'')])]"

definition video_result :: json where
  "video_result =
     JObj [(''id'', JObj [(''kind'', JStr ''youtube#video''), (''videoId'', JStr ''dQw4'')]),
           (''snippet'', JObj [(''title'', JStr ''A video'')])]"

section \<open>The empty inputs\<close>

lemma get_channel_stats_calls:
  "calls (snd (get_channel_stats exec channel_ids w)) =
     calls w @ [(channels_request channel_ids,
                 fst (exec (channels_request channel_ids) (remote w)))]"
  by (simp add: get_channel_stats_def execute_def split: prod.splits sum.splits)

text \<open>
  C1. The claim: called with an empty list of channel identifiers, \<open>get_channel_stats\<close>
  fails with ValueError and issues no remote request. The function has no check of its
  argument: with the empty list it sends the request with the empty \<^verbatim>\<open>id\<close> filter, and
  against a service that answers with no items it returns the empty table.
\<close>

theorem get_channel_stats_empty_ids:
  "get_channel_stats no_channels [] w0 =
     (Inr \<lparr>df_columns = [], df_rows = []\<rparr>,
      w0\<lparr>calls := [(ChannelsList ''snippet,contentDetails,statistics'' [],
                     Inr (JObj [(''items'', JList [])]))]\<rparr>)"
  by (simp add: get_channel_stats_def execute_def channels_request_def no_channels_def
      answering_def w0_def bind_err_def subscript_def py_iter_def DataFrame_def)

text \<open>
  C2. The claim: for the empty list, \<open>get_video_details\<close> issues no remote request and
  returns an empty table whose columns are the fixed schema. No request is issued and the
  table has no row, but the table is built from the records alone, and without a record
  it has no column.
\<close>

theorem get_video_details_empty_ids:
  "get_video_details exec [] w = (Inr \<lparr>df_columns = [], df_rows = []\<rparr>, w)
   \<and> video_columns \<noteq> []"
  by (simp add: get_video_details_def py_range.simps DataFrame_def video_columns_def)

section \<open>The fault handlers of get\_channel\_id\_by\_name\<close>

lemma load_HttpError: "load_name ''HttpError'' = Inl (NameError ''HttpError'')"
  by (simp add: load_name_def module_names_def builtin_names_def)

lemma handlers_raise: "handlers exn w = (Inl (NameError ''HttpError''), w)"
  by (simp add: handlers_def load_HttpError)

text \<open>
  C3. The claim: whatever the client does, a remote fault of the search call included,
  \<open>get_channel_id_by_name\<close> returns \<open>(None, None)\<close> and raises nothing. The first
  \<^verbatim>\<open>except\<close> clause names \<^verbatim>\<open>HttpError\<close>, which the module never imports: when the
  search call raises, evaluating the clause raises NameError, and that is what the caller
  gets.
\<close>

theorem get_channel_id_by_name_fault:
  "get_channel_id_by_name quota_exceeded ''some channel'' w0 =
     (Inl (NameError ''HttpError''),
      w0\<lparr>calls := [(SearchList ''some channel'' ''id,snippet'' 1 ''channel'',
                     Inl (HttpError ''403'' ''quotaExceeded''))]\<rparr>)"
  by (simp add: get_channel_id_by_name_def try_body_def execute_def search_request_def
      quota_exceeded_def w0_def handlers_raise)

section \<open>The record of one video\<close>

lemma nested_subscript2: "nested x g a = Some v \<Longrightarrow> subscript2 x g a = Inr v"
  by (auto simp: nested_def subscript2_def subscript_def bind_err_def
      split: json.splits option.splits)

lemma lookup_or_none_shaped:
  "group_shaped kvs g \<Longrightarrow>
     lookup_or_none (JObj kvs) g a = Inr (or_absent (nested (JObj kvs) g a))"
  by (auto simp: group_shaped_def lookup_or_none_def nested_def or_absent_def subscript2_def
      subscript_def bind_err_def split: json.splits option.splits)

text \<open>
  C6. For a response item that has its identifier and whose groups, where it has them,
  are objects, the record holds the identifier and every one of the twelve attributes of
  the schema, in the order of the schema: the value found in the group of the attribute,
  and the absent marker when the item lacks the group or the group lacks the attribute.
  Nothing is raised and no field is left out.
\<close>

theorem video_record_complete:
  assumes "map_of kvs ''id'' = Some video_id"
    and "group_shaped kvs ''snippet''"
    and "group_shaped kvs ''statistics''"
    and "group_shaped kvs ''contentDetails''"
  shows "video_record (JObj kvs) =
     Inr [(''video_id'', video_id),
          (''channelTitle'', or_absent (nested (JObj kvs) ''snippet'' ''channelTitle'')),
          (''title'', or_absent (nested (JObj kvs) ''snippet'' ''title'')),
          (''description'', or_absent (nested (JObj kvs) ''snippet'' ''description'')),
          (''tags'', or_absent (nested (JObj kvs) ''snippet'' ''tags'')),
          (''publishedAt'', or_absent (nested (JObj kvs) ''snippet'' ''publishedAt'')),
          (''viewCount'', or_absent (nested (JObj kvs) ''statistics'' ''viewCount'')),
          (''likeCount'', or_absent (nested (JObj kvs) ''statistics'' ''likeCount'')),
          (''favoriteCount'', or_absent (nested (JObj kvs) ''statistics'' ''favoriteCount'')),
          (''commentCount'', or_absent (nested (JObj kvs) ''statistics'' ''commentCount'')),
          (''duration'', or_absent (nested (JObj kvs) ''contentDetails'' ''duration'')),
          (''definition'', or_absent (nested (JObj kvs) ''contentDetails'' ''definition'')),
          (''caption'', or_absent (nested (JObj kvs) ''contentDetails'' ''caption''))]"
  using assms
  by (simp add: video_record_def stats_to_keep_def subscript_def bind_err_def
      lookup_or_none_shaped)

text \<open>The video without tags: its record has the absent marker under \<open>tags\<close>.\<close>

theorem video_record_complete_witness:
  "map_of video_without_tags ''id'' = Some (JStr ''dQw4'')
   \<and> group_shaped video_without_tags ''snippet''
   \<and> group_shaped video_without_tags ''statistics''
   \<and> group_shaped video_without_tags ''contentDetails''
   \<and> video_record (JObj video_without_tags) =
     Inr [(''video_id'', JStr ''dQw4''),
          (''channelTitle'', JStr ''Channel''),
          (''title'', JStr ''Title''),
          (''description'', JStr ''About''),
          (''tags'', JNull),
          (''publishedAt'', JStr ''2020-01-01T00:00:00Z''),
          (''viewCount'', JStr ''10''),
          (''likeCount'', JStr ''2''),
          (''favoriteCount'', JStr ''0''),
          (''commentCount'', JStr ''1''),
          (''duration'', JStr ''PT1M''),
          (''definition'', JStr ''hd''),
          (''caption'', JStr ''false'')]"
  using video_record_complete [of video_without_tags "JStr ''dQw4''"]
  by (simp add: video_without_tags_def group_shaped_def nested_def or_absent_def)

lemma video_record_no_id:
  "map_of kvs ''id'' = None \<Longrightarrow> video_record (JObj kvs) = Inl (KeyError ''id'')"
  by (simp add: video_record_def subscript_def bind_err_def)

lemma py_range_first:
  "xs \<noteq> [] \<Longrightarrow> py_range 0 (length xs) 50 = 0 # py_range 50 (length xs) 50"
  by (subst py_range.simps) simp

lemma first_batch_raises:
  assumes "video_ids \<noteq> []"
    and "exec (videos_request (take 50 video_ids)) (remote w) = (Inr response, s')"
    and "append_records response [] = Inl e"
  shows "get_video_details exec video_ids w =
     (Inl e, w\<lparr>remote := s',
               calls := calls w @ [(videos_request (take 50 video_ids), Inr response)]\<rparr>)"
  using assms
  by (simp add: get_video_details_def py_range_first slice_def execute_def)

text \<open>
  C10. The identifier of an item and the items of a response are read without a guard:
  an item without \<^verbatim>\<open>id\<close> gives no record but KeyError, and the whole operation raises
  KeyError when the response to the first batch has no \<^verbatim>\<open>items\<close>, or when the first
  of its items has no \<^verbatim>\<open>id\<close>.
\<close>

theorem unguarded_id_and_items:
  "(map_of kvs ''id'' = None \<longrightarrow> video_record (JObj kvs) = Inl (KeyError ''id''))
 \<and> (video_ids \<noteq> []
      \<and> exec (videos_request (take 50 video_ids)) (remote w) = (Inr (JObj resp), s')
      \<and> map_of resp ''items'' = None
    \<longrightarrow> fst (get_video_details exec video_ids w) = Inl (KeyError ''items''))
 \<and> (video_ids \<noteq> []
      \<and> exec (videos_request (take 50 video_ids)) (remote w) = (Inr (JObj resp), s')
      \<and> map_of resp ''items'' = Some (JList (JObj kvs # rest)) \<and> map_of kvs ''id'' = None
    \<longrightarrow> fst (get_video_details exec video_ids w) = Inl (KeyError ''id''))"
proof (intro conjI impI)
  assume "map_of kvs ''id'' = None"
  then show "video_record (JObj kvs) = Inl (KeyError ''id'')"
    by (rule video_record_no_id)
next
  assume a: "video_ids \<noteq> []
      \<and> exec (videos_request (take 50 video_ids)) (remote w) = (Inr (JObj resp), s')
      \<and> map_of resp ''items'' = None"
  then have "append_records (JObj resp) [] = Inl (KeyError ''items'')"
    by (simp add: append_records_def subscript_def bind_err_def)
  with a show "fst (get_video_details exec video_ids w) = Inl (KeyError ''items'')"
    by (simp add: first_batch_raises)
next
  assume a: "video_ids \<noteq> []
      \<and> exec (videos_request (take 50 video_ids)) (remote w) = (Inr (JObj resp), s')
      \<and> map_of resp ''items'' = Some (JList (JObj kvs # rest)) \<and> map_of kvs ''id'' = None"
  then have "append_records (JObj resp) [] = Inl (KeyError ''id'')"
    by (simp add: append_records_def subscript_def bind_err_def py_iter_def video_record_no_id)
  with a show "fst (get_video_details exec video_ids w) = Inl (KeyError ''id'')"
    by (simp add: first_batch_raises)
qed

theorem unguarded_id_and_items_witness:
  "map_of [(''snippet'', JObj [(''title'', JStr ''Title'')])] ''id'' = None
   \<and> video_record (JObj [(''snippet'', JObj [(''title'', JStr ''Title'')])])
       = Inl (KeyError ''id'')
   \<and> fst (get_video_details
            (answering (JObj [(''kind'', JStr ''youtube#videoListResponse'')])) [''v1''] w0)
       = Inl (KeyError ''items'')
   \<and> fst (get_video_details
            (answering (JObj [(''items'',
               JList [JObj [(''snippet'', JObj [(''title'', JStr ''Title'')])]])])) [''v1''] w0)
       = Inl (KeyError ''id'')"
  using unguarded_id_and_items [of "[(''snippet'', JObj [(''title'', JStr ''Title'')])]"
      "[''v1'']" "answering (JObj [(''kind'', JStr ''youtube#videoListResponse'')])" w0
      "[(''kind'', JStr ''youtube#videoListResponse'')]" "()" "[]"]
    unguarded_id_and_items [of "[(''snippet'', JObj [(''title'', JStr ''Title'')])]"
      "[''v1'']"
      "answering (JObj [(''items'',
         JList [JObj [(''snippet'', JObj [(''title'', JStr ''Title'')])]])])" w0
      "[(''items'', JList [JObj [(''snippet'', JObj [(''title'', JStr ''Title'')])]])]"
      "()" "[]"]
  by (simp add: answering_def)

section \<open>The result of a search\<close>

lemma search_loop_find:
  "\<forall>it\<in>set its. search_result_shaped it \<Longrightarrow>
     \<exists>found. (case find is_channel its of None \<Rightarrow> found = None
                | Some it \<Rightarrow> found \<noteq> None \<and> channel_of it = found)
       \<and> search_loop its = Inr found"
proof (induction its)
  case Nil
  then show ?case by simp
next
  case (Cons it its)
  then obtain k where k: "nested it ''id'' ''kind'' = Some k"
    by (auto simp: search_result_shaped_def)
  show ?case
  proof (cases "is_channel it")
    case True
    with Cons.prems obtain c t where ct: "nested it ''id'' ''channelId'' = Some c"
      "nested it ''snippet'' ''title'' = Some t"
      by (auto simp: search_result_shaped_def)
    with True k show ?thesis
      by (simp add: is_channel_def nested_subscript2 bind_err_def channel_of_def)
  next
    case False
    with k have "k \<noteq> JStr ''youtube#channel''" by (simp add: is_channel_def)
    with False k Cons show ?thesis
      by (simp add: nested_subscript2 bind_err_def)
  qed
qed

lemma search_items_iter:
  "search_items response = Some its \<Longrightarrow>
     bind_err (py_get response ''items'' (JList [])) py_iter = Inr its"
  by (auto simp: search_items_def py_get_def py_iter_def bind_err_def
      split: json.splits option.splits)

text \<open>
  C7. When the search call answers with a response whose results are shaped as the search
  interface gives them, \<open>get_channel_id_by_name\<close> returns the identifier and title of
  the first channel-kind result, and \<open>(None, None)\<close> when the response has no result or
  none of kind \<^verbatim>\<open>youtube#channel\<close>. It makes the one call and prints nothing.
\<close>

theorem channel_resolver_result:
  assumes "exec (search_request channel_name) (remote w) = (Inr response, s')"
    and "search_items response = Some its"
    and "\<forall>it\<in>set its. search_result_shaped it"
  shows "\<exists>found.
     (case find is_channel its of
        None \<Rightarrow> found = (JNull, JNull)
      | Some it \<Rightarrow> channel_of it = Some found)
     \<and> get_channel_id_by_name exec channel_name w =
         (Inr found, w\<lparr>remote := s',
            calls := calls w @ [(search_request channel_name, Inr response)]\<rparr>)"
proof -
  from search_loop_find [OF assms(3)] obtain r where
    r: "case find is_channel its of None \<Rightarrow> r = None
        | Some it \<Rightarrow> r \<noteq> None \<and> channel_of it = r"
    and loop: "search_loop its = Inr r" by blast
  from assms(2) have it:
    "py_get response ''items'' (JList []) = Inr x \<Longrightarrow> py_iter x = Inr its" for x
    by (auto simp: search_items_def py_get_def py_iter_def split: json.splits option.splits)
  from assms(2) obtain x where x: "py_get response ''items'' (JList []) = Inr x"
    by (auto simp: search_items_def py_get_def split: json.splits option.splits)
  have body: "try_body exec channel_name w =
      (Inr r, w\<lparr>remote := s',
         calls := calls w @ [(search_request channel_name, Inr response)]\<rparr>)"
    using assms(1) x it[OF x] loop by (simp add: try_body_def execute_def bind_err_def)
  show ?thesis
  proof (cases "find is_channel its")
    case None
    with r body show ?thesis by (simp add: get_channel_id_by_name_def)
  next
    case (Some i)
    with r obtain f where "r = Some f" "channel_of i = Some f" by auto
    with Some body show ?thesis by (simp add: get_channel_id_by_name_def)
  qed
qed

theorem channel_resolver_result_witness:
  "search_items (JObj [(''items'', JList [video_result, channel_result])])
     = Some [video_result, channel_result]
   \<and> get_channel_id_by_name
        (answering (JObj [(''items'', JList [video_result, channel_result])])) ''a channel'' w0
      = (Inr (JStr ''UC1'', JStr ''A channel''),
         w0\<lparr>calls := [(search_request ''a channel'',
                        Inr (JObj [(''items'', JList [video_result, channel_result])]))]\<rparr>)
   \<and> search_items (JObj [(''items'', JList [video_result])]) = Some [video_result]
   \<and> get_channel_id_by_name (answering (JObj [(''items'', JList [video_result])]))
        ''a channel'' w0
      = (Inr (JNull, JNull),
         w0\<lparr>calls := [(search_request ''a channel'',
                        Inr (JObj [(''items'', JList [video_result])]))]\<rparr>)"
  using channel_resolver_result [of "answering (JObj [(''items'', JList [video_result, channel_result])])"
      "''a channel''" w0
      "JObj [(''items'', JList [video_result, channel_result])]" "()"
      "[video_result, channel_result]"]
   channel_resolver_result [of "answering (JObj [(''items'', JList [video_result])])"
      "''a channel''" w0
      "JObj [(''items'', JList [video_result])]" "()"
      "[video_result]"]
  by (simp add: answering_def search_items_def search_result_shaped_def is_channel_def
      channel_result_def video_result_def nested_def channel_of_def w0_def)

section \<open>The walk over the pages of a collection\<close>

lemma collect_those:
  "those (map g xs) = Some ys \<Longrightarrow> (\<And>x y. g x = Some y \<Longrightarrow> f x = Inr y) \<Longrightarrow>
     collect f xs acc = Inr (acc @ ys)"
proof (induction xs arbitrary: acc ys)
  case Nil
  then show ?case by simp
next
  case (Cons x xs)
  then show ?case by (auto split: option.splits)
qed

lemma append_ids_refs:
  "page_refs page = Some refs \<Longrightarrow> append_ids page acc = Inr (acc @ refs)"
  by (auto simp: page_refs_def append_ids_def subscript_def py_iter_def bind_err_def
      video_id_of_def nested_subscript2 intro!: collect_those split: json.splits option.splits)

lemma py_get_token:
  "page_refs page = Some refs \<Longrightarrow> py_get page ''nextPageToken'' JNull = Inr (page_token page)"
  by (auto simp: page_refs_def py_get_def page_token_def split: json.splits option.splits)

lemma all_refs_Cons:
  "page_refs page = Some refs \<Longrightarrow> all_refs (page # pages) = refs @ all_refs pages"
  by (simp add: all_refs_def)

lemma page_loop_follow:
  "follow exec playlist_id (Some token) (remote w) pages = Some (out, s') \<Longrightarrow>
   token \<noteq> JNull \<Longrightarrow> terminal out \<Longrightarrow>
   page_loop exec playlist_id token acc w =
     Some (finish (acc @ all_refs pages) out,
           w\<lparr>remote := s', calls := calls w @ dialogue playlist_id (Some token) pages out\<rparr>)"
proof (induction pages arbitrary: token w acc)
  case Nil
  show ?case
  proof (cases out)
    case (Inl e)
    with Nil show ?thesis
      by (subst page_loop.simps) (simp add: execute_def finish_def)
  next
    case (Inr page)
    with Nil obtain refs where refs: "page_refs page = Some refs"
      and tok: "page_token page = JNull"
      by (auto simp: terminal_def)
    have stop: "page_loop exec playlist_id JNull video_ids w1 = Some (Inr video_ids, w1)"
      for video_ids and w1 :: "'a world"
      by (subst page_loop.simps) simp
    from Nil Inr refs tok show ?thesis
      by (subst page_loop.simps)
        (simp add: execute_def finish_def append_ids_refs py_get_token stop all_refs_def)
  qed
next
  case (Cons page pages)
  from Cons.prems(1) obtain s1 where
    ex: "exec (playlist_request playlist_id (Some token)) (remote w) = (Inr page, s1)"
    and ok: "page_refs page \<noteq> None" "page_token page \<noteq> JNull"
    and rest: "follow exec playlist_id (Some (page_token page)) s1 pages = Some (out, s')"
    by (auto split: prod.splits sum.splits if_splits)
  from ok obtain refs where refs: "page_refs page = Some refs" by auto
  let ?w1 = "w\<lparr>remote := s1,
     calls := calls w @ [(playlist_request playlist_id (Some token), Inr page)]\<rparr>"
  from rest
  have "follow exec playlist_id (Some (page_token page)) (remote ?w1) pages = Some (out, s')"
    by simp
  from Cons.IH [OF this ok(2) Cons.prems(3), of "acc @ refs"]
  have "page_loop exec playlist_id (page_token page) (acc @ refs) ?w1 =
     Some (finish (acc @ all_refs (page # pages)) out,
           w\<lparr>remote := s',
             calls := calls w @ dialogue playlist_id (Some token) (page # pages) out\<rparr>)"
    by (simp add: all_refs_Cons [OF refs])
  with ex refs Cons.prems(2) show ?case
    by (subst page_loop.simps) (simp add: execute_def append_ids_refs py_get_token)
qed

lemma get_video_ids_follow:
  assumes "follow exec playlist_id None (remote w) pages = Some (out, s')"
    and "terminal out"
  shows "get_video_ids exec playlist_id w =
     Some (finish (all_refs pages) out,
           w\<lparr>remote := s', calls := calls w @ dialogue playlist_id None pages out\<rparr>)"
proof (cases pages)
  case Nil
  show ?thesis
  proof (cases out)
    case (Inl e)
    with Nil assms show ?thesis
      by (simp add: get_video_ids_def execute_def finish_def)
  next
    case (Inr page)
    with assms obtain refs where refs: "page_refs page = Some refs"
      and tok: "page_token page = JNull"
      by (auto simp: terminal_def)
    have stop: "page_loop exec playlist_id JNull video_ids w1 = Some (Inr video_ids, w1)"
      for video_ids and w1 :: "'a world"
      by (subst page_loop.simps) simp
    from Nil Inr refs tok assms show ?thesis
      by (simp add: get_video_ids_def execute_def finish_def append_ids_refs py_get_token stop
          all_refs_def)
  qed
next
  case (Cons page rest)
  with assms(1) obtain s1 where
    ex: "exec (playlist_request playlist_id None) (remote w) = (Inr page, s1)"
    and ok: "page_refs page \<noteq> None" "page_token page \<noteq> JNull"
    and rest: "follow exec playlist_id (Some (page_token page)) s1 rest = Some (out, s')"
    by (auto split: prod.splits sum.splits if_splits)
  from ok obtain refs where refs: "page_refs page = Some refs" by auto
  let ?w1 = "w\<lparr>remote := s1,
     calls := calls w @ [(playlist_request playlist_id None, Inr page)]\<rparr>"
  from rest
  have "follow exec playlist_id (Some (page_token page)) (remote ?w1) rest = Some (out, s')"
    by simp
  from page_loop_follow [OF this ok(2) assms(2), of refs]
  have "page_loop exec playlist_id (page_token page) refs ?w1 =
     Some (finish (all_refs pages) out,
           w\<lparr>remote := s', calls := calls w @ dialogue playlist_id None pages out\<rparr>)"
    by (simp add: all_refs_Cons [OF refs] Cons)
  with ex refs show ?thesis
    by (simp add: get_video_ids_def execute_def append_ids_refs py_get_token)
qed

lemma length_dialogue: "length (dialogue playlist_id token pages out) = Suc (length pages)"
  by (induction pages arbitrary: token) auto

lemma all_refs_snoc:
  "all_refs (pages @ [page]) =
     all_refs pages @ (case page_refs page of None \<Rightarrow> [] | Some refs \<Rightarrow> refs)"
  by (simp add: all_refs_def)

text \<open>
  C5. When the service answers the successive page requests with well-formed pages, each
  but the last carrying a continuation token and the last carrying none,
  \<open>get_video_ids\<close> returns the references of the first page followed by those of the
  second, and so on to the last: the concatenation of the pages in request order, every
  reference kept at its place and as often as the pages hold it. The requests it makes are
  one per page, each passing on the token of the page before.
\<close>

theorem playlist_concatenation:
  assumes "follow exec playlist_id None (remote w) pages = Some (Inr final_page, s')"
    and "page_refs final_page \<noteq> None"
    and "page_token final_page = JNull"
  shows "get_video_ids exec playlist_id w =
     Some (Inr (all_refs (pages @ [final_page])),
           w\<lparr>remote := s',
             calls := calls w @ dialogue playlist_id None pages (Inr final_page)\<rparr>)"
  using get_video_ids_follow [OF assms(1)] assms(2,3)
  by (simp add: terminal_def finish_def all_refs_snoc)

text \<open>
  The three pages of 2, 2 and 1 items: five identifiers in the order of the pages, the one
  that is on two pages twice.
\<close>

theorem playlist_concatenation_witness:
  "follow three_pages ''PL1'' None () [page_A, page_B] = Some (Inr page_C, ())
   \<and> page_refs page_C \<noteq> None \<and> page_token page_C = JNull
   \<and> get_video_ids three_pages ''PL1'' w0 =
       Some (Inr [JStr ''v1'', JStr ''v2'', JStr ''v2'', JStr ''v3'', JStr ''v4''],
         w0\<lparr>calls :=
           [(playlist_request ''PL1'' None, Inr page_A),
            (playlist_request ''PL1'' (Some (JStr ''A'')), Inr page_B),
            (playlist_request ''PL1'' (Some (JStr ''B'')), Inr page_C)]\<rparr>)"
  using playlist_concatenation [of three_pages "''PL1''" w0 "[page_A, page_B]" page_C "()"]
  by (simp add: w0_def three_pages_def playlist_request_def page_A_def page_B_def page_C_def
      page_refs_def page_token_def playlist_item_def nested_def all_refs_def)

lemma page_refs_numbered: "page_refs (numbered_page n k) = Some [JNum (int k)]"
  by (simp add: page_refs_def numbered_page_def nested_def)

lemma page_token_numbered:
  "page_token (numbered_page n k) = (if Suc k < n then JNum (int (Suc k)) else JNull)"
  by (simp add: page_token_def numbered_page_def)

lemma counting_step: "counting n req k = (Inr (numbered_page n k), Suc k)"
  by (simp add: counting_def)

lemma follow_counting_aux:
  "n = Suc (k + m) \<Longrightarrow>
     follow (counting n) playlist_id token k (map (numbered_page n) [k..<k + m])
       = Some (Inr (numbered_page n (k + m)), n)"
proof (induction m arbitrary: k token)
  case 0
  then show ?case by (simp add: counting_step)
next
  case (Suc m)
  then have n: "n = Suc (Suc k + m)" by simp
  have upt: "[k..<k + Suc m] = k # [Suc k..<Suc k + m]" by (simp add: upt_conv_Cons)
  from Suc.IH [OF n] n show ?case
    by (simp only: upt list.map follow.simps counting_step prod.case sum.case
        page_refs_numbered page_token_numbered)
      simp
qed

lemma follow_counting:
  "0 < n \<Longrightarrow>
     follow (counting n) playlist_id None 0 (map (numbered_page n) [0..<n - 1])
       = Some (Inr (numbered_page n (n - 1)), n)"
  using follow_counting_aux [of n 0 "n - 1" playlist_id None] by simp

text \<open>
  C9. When, after finitely many pages with a continuation token, the service answers with
  a page without one, \<open>get_video_ids\<close> returns, and it has then made exactly one request
  per page. The operation sets no bound on the number of pages: against a collection of
  \<open>n\<close> pages it returns after \<open>n\<close> requests, whatever \<open>n\<close> is.
\<close>

theorem playlist_walk_terminates:
  "(follow exec playlist_id None (remote w) pages = Some (Inr final_page, s')
      \<and> page_refs final_page \<noteq> None \<and> page_token final_page = JNull
    \<longrightarrow> (\<exists>res w'. get_video_ids exec playlist_id w = Some (res, w')
          \<and> length (calls w') = length (calls w) + Suc (length pages)))
 \<and> (0 < n
    \<longrightarrow> (\<exists>res w'. get_video_ids (counting n) playlist_id
             \<lparr>remote = 0, calls = [], stdout = []\<rparr> = Some (res, w')
          \<and> length (calls w') = n))"
proof (intro conjI impI)
  assume a: "follow exec playlist_id None (remote w) pages = Some (Inr final_page, s')
      \<and> page_refs final_page \<noteq> None \<and> page_token final_page = JNull"
  then have "terminal (Inr final_page)" by (simp add: terminal_def)
  with a get_video_ids_follow [of exec playlist_id w pages "Inr final_page" s']
  show "\<exists>res w'. get_video_ids exec playlist_id w = Some (res, w')
          \<and> length (calls w') = length (calls w) + Suc (length pages)"
    by (simp add: length_dialogue)
next
  assume n: "0 < n"
  let ?w = "\<lparr>remote = 0::nat, calls = [], stdout = []\<rparr>"
  from follow_counting [OF n]
  have f: "follow (counting n) playlist_id None (remote ?w)
       (map (numbered_page n) [0..<n - 1]) = Some (Inr (numbered_page n (n - 1)), n)"
    by simp
  have "terminal (Inr (numbered_page n (n - 1)))"
    using n by (simp add: terminal_def page_refs_numbered page_token_numbered)
  from get_video_ids_follow [OF f this] n
  show "\<exists>res w'. get_video_ids (counting n) playlist_id ?w = Some (res, w')
          \<and> length (calls w') = n"
    by (simp add: length_dialogue)
qed

theorem playlist_walk_terminates_witness:
  "follow three_pages ''PL1'' None (remote w0) [page_A, page_B] = Some (Inr page_C, ())
   \<and> page_refs page_C \<noteq> None \<and> page_token page_C = JNull
   \<and> (\<exists>res w'. get_video_ids three_pages ''PL1'' w0 = Some (res, w') \<and> length (calls w') = 3)
   \<and> (\<exists>res w'. get_video_ids (counting 1000) ''PL1''
          \<lparr>remote = 0, calls = [], stdout = []\<rparr> = Some (res, w')
        \<and> length (calls w') = 1000)"
  using playlist_walk_terminates [of three_pages "''PL1''" w0 "[page_A, page_B]" page_C "()" 1000]
  by (simp add: w0_def three_pages_def playlist_request_def page_A_def page_B_def page_C_def
      page_refs_def page_token_def playlist_item_def nested_def numeral_3_eq_3)

section \<open>The batches of get\_video\_details\<close>

lemma py_range_batches_aux:
  "(n + 49) div 50 - j = m \<Longrightarrow>
     py_range (50 * j) n 50 = map (\<lambda>k. 50 * k) [j..<(n + 49) div 50]"
proof (induction m arbitrary: j)
  case 0
  then have "n \<le> 50 * j" by simp
  then show ?case using 0 by (subst py_range.simps) simp
next
  case (Suc m)
  then have lt: "j < (n + 49) div 50" by simp
  then have "50 * j < n" by simp
  moreover from Suc.prems have "(n + 49) div 50 - Suc j = m" by simp
  from Suc.IH [OF this]
  have "py_range (50 * j + 50) n 50 = map (\<lambda>k. 50 * k) [Suc j..<(n + 49) div 50]"
    by (simp add: add.commute)
  ultimately show ?case using lt
    by (subst py_range.simps) (simp add: upt_conv_Cons)
qed

lemma py_range_batches:
  "py_range 0 (length xs) 50 = map (\<lambda>k. 50 * k) [0..<batch_count xs]"
  using py_range_batches_aux [of "length xs" 0, OF refl] by (simp add: batch_count_def)

lemma slice_batch: "slice xs (50 * k) (50 * k + 50) = batch xs k"
proof (rule nth_equalityI)
  show "length (slice xs (50 * k) (50 * k + 50)) = length (batch xs k)"
    by (simp add: slice_def batch_def)
next
  fix i
  assume "i < length (slice xs (50 * k) (50 * k + 50))"
  then have i: "i < 50" "50 * k + i < length xs"
    by (auto simp: slice_def)
  then have "slice xs (50 * k) (50 * k + 50) ! i = xs ! (50 * k + i)"
    by (simp add: slice_def)
  moreover from i have "batch xs k ! i = xs ! (50 * k + i)"
    by (simp add: batch_def)
  ultimately show "slice xs (50 * k) (50 * k + 50) ! i = batch xs k ! i"
    by simp
qed

lemma length_batch: "length (batch xs k) = min (50 * k + 50) (length xs) - 50 * k"
  by (simp add: batch_def)

lemma sum_batches_aux:
  "j \<le> batch_count xs \<Longrightarrow>
     sum_list (map (\<lambda>k. length (batch xs k)) [0..<j]) = min (50 * j) (length xs)"
proof (induction j)
  case 0
  then show ?case by simp
next
  case (Suc j)
  then have "j < (length xs + 49) div 50" by (simp add: batch_count_def)
  then have "50 * j < length xs" by simp
  with Suc show ?case by (simp add: length_batch min_def)
qed

lemma sum_batches:
  "sum_list (map (\<lambda>k. length (batch xs k)) [0..<batch_count xs]) = length xs"
proof -
  have "length xs \<le> 50 * batch_count xs" by (simp add: batch_count_def)
  with sum_batches_aux [of "batch_count xs" xs] show ?thesis by simp
qed

lemma collect_length: "collect f xs acc = Inr ys \<Longrightarrow> length ys = length acc + length xs"
  by (induction xs arbitrary: acc) (auto split: sum.splits)

lemma video_record_JStr: "video_record (JStr s) = Inl TypeError"
  by (simp add: video_record_def subscript_def bind_err_def)

lemma collect_JStr:
  "collect video_record (map (\<lambda>x. JStr (g x)) xs) acc = Inr ys \<Longrightarrow> length ys = length acc"
  by (cases xs) (auto simp: video_record_JStr)

lemma append_records_length:
  "append_records response acc = Inr ys \<Longrightarrow>
     length ys = length acc + item_count (Inr response)"
  by (auto simp: append_records_def item_count_def subscript_def py_iter_def bind_err_def
      split: json.splits option.splits sum.splits dest: collect_length collect_JStr)

lemma batch_loop_calls:
  "batch_loop exec video_ids offsets acc w = (Inr info, w') \<Longrightarrow>
     \<exists>tr. calls w' = calls w @ tr
       \<and> map fst tr = map (\<lambda>i. videos_request (slice video_ids i (i + 50))) offsets
       \<and> length info = length acc + sum_list (map (\<lambda>c. item_count (snd c)) tr)"
proof (induction offsets arbitrary: acc w)
  case Nil
  then show ?case by simp
next
  case (Cons i offsets)
  let ?req = "videos_request (slice video_ids i (i + 50))"
  from Cons.prems obtain response s1 acc1 where
    ex: "exec ?req (remote w) = (Inr response, s1)"
    and app: "append_records response acc = Inr acc1"
    and rest: "batch_loop exec video_ids offsets acc1
        (w\<lparr>remote := s1, calls := calls w @ [(?req, Inr response)]\<rparr>) = (Inr info, w')"
    by (auto simp: execute_def split: prod.splits sum.splits)
  from Cons.IH [OF rest] obtain tr where
    tr: "calls w' = calls w @ (?req, Inr response) # tr"
      "map fst tr = map (\<lambda>i. videos_request (slice video_ids i (i + 50))) offsets"
      "length info = length acc1 + sum_list (map (\<lambda>c. item_count (snd c)) tr)"
    by auto
  with append_records_length [OF app]
  have "calls w' = calls w @ ((?req, Inr response) # tr)
       \<and> map fst ((?req, Inr response) # tr)
           = map (\<lambda>i. videos_request (slice video_ids i (i + 50))) (i # offsets)
       \<and> length info = length acc
           + sum_list (map (\<lambda>c. item_count (snd c)) ((?req, Inr response) # tr))"
    by simp
  then show ?case by blast
qed

lemma batches_125:
  "length xs = 125 \<Longrightarrow> map (\<lambda>k. length (batch xs k)) [0..<batch_count xs] = [50, 50, 25]"
  by (simp add: batch_count_def length_batch upt_conv_Cons)

text \<open>
  C4. When \<open>get_video_details\<close> returns a table, it has made one request per batch, in
  ascending order of the batches, batch \<open>k\<close> being the identifiers at the positions from
  \<open>50k\<close> up to \<open>50k + 50\<close>; the table has one row per item of the responses; for 125
  identifiers the batches have 50, 50 and 25 identifiers; and when every response has as
  many items as its batch has identifiers, the table has as many rows as there are
  identifiers.
\<close>

theorem details_batches:
  assumes "get_video_details exec video_ids w = (Inr df, w')"
  shows "\<exists>tr. calls w' = calls w @ tr
     \<and> map fst tr = map (\<lambda>k. videos_request (batch video_ids k)) [0..<batch_count video_ids]
     \<and> length (df_rows df) = sum_list (map (\<lambda>c. item_count (snd c)) tr)
     \<and> (length video_ids = 125 \<longrightarrow>
          map (\<lambda>k. length (batch video_ids k)) [0..<batch_count video_ids] = [50, 50, 25])
     \<and> ((\<forall>k<batch_count video_ids.
            item_count (snd (tr ! k)) = length (batch video_ids k)) \<longrightarrow>
          length (df_rows df) = length video_ids)"
proof -
  from assms obtain info where
    loop: "batch_loop exec video_ids (py_range 0 (length video_ids) 50) [] w = (Inr info, w')"
    and df: "df = DataFrame info"
    by (auto simp: get_video_details_def split: prod.splits sum.splits)
  from batch_loop_calls [OF loop] obtain tr where
    tr0: "calls w' = calls w @ tr"
      "map fst tr = map (\<lambda>i. videos_request (slice video_ids i (i + 50)))
         (py_range 0 (length video_ids) 50)"
      "length info = length ([] :: (string \<times> json) list list)
         + sum_list (map (\<lambda>c. item_count (snd c)) tr)"
    by blast
  have tr: "calls w' = calls w @ tr"
      "map fst tr = map (\<lambda>k. videos_request (batch video_ids k)) [0..<batch_count video_ids]"
      "length info = sum_list (map (\<lambda>c. item_count (snd c)) tr)"
    using tr0 by (simp_all add: py_range_batches comp_def slice_batch)
  from tr(2) have "length (map fst tr) = length [0..<batch_count video_ids]"
    by simp
  then have len: "length tr = batch_count video_ids"
    by simp
  have rows: "length (df_rows df) = length info"
    by (simp add: df DataFrame_def Let_def)
  have echo: "length (df_rows df) = length video_ids"
    if "\<forall>k<batch_count video_ids. item_count (snd (tr ! k)) = length (batch video_ids k)"
  proof -
    from that len have "map (\<lambda>c. item_count (snd c)) tr
        = map (\<lambda>k. length (batch video_ids k)) [0..<batch_count video_ids]"
      by (intro nth_equalityI) auto
    with tr(3) rows show ?thesis by (simp add: sum_batches)
  qed
  show ?thesis
  proof (intro exI [of _ tr] conjI impI)
    show "calls w' = calls w @ tr" by (rule tr(1))
    show "map fst tr
        = map (\<lambda>k. videos_request (batch video_ids k)) [0..<batch_count video_ids]"
      by (rule tr(2))
    show "length (df_rows df) = sum_list (map (\<lambda>c. item_count (snd c)) tr)"
      using rows tr(3) by simp
    show "map (\<lambda>k. length (batch video_ids k)) [0..<batch_count video_ids] = [50, 50, 25]"
      if "length video_ids = 125" using that by (rule batches_125)
    show "length (df_rows df) = length video_ids"
      if "\<forall>k<batch_count video_ids. item_count (snd (tr ! k)) = length (batch video_ids k)"
      using that by (rule echo)
  qed
qed


lemma echo_run:
  "case batch_loop echo ids125 (py_range 0 (length ids125) 50) [] w0 of
     (res, w') \<Rightarrow> \<not> isl res \<and> map (\<lambda>c. item_count (snd c)) (calls w') = [50, 50, 25]"
  by code_simp

lemma length_ids125: "length ids125 = 125"
  by (simp add: ids125_def)

text \<open>
  125 identifiers against the service that echoes: three requests, for the batches of 50,
  50 and 25 identifiers, and 125 rows.
\<close>

theorem details_batches_witness:
  "\<exists>df w'. get_video_details echo ids125 w0 = (Inr df, w')
     \<and> map fst (calls w') =
         [videos_request (batch ids125 0), videos_request (batch ids125 1),
          videos_request (batch ids125 2)]
     \<and> map (\<lambda>k. length (batch ids125 k)) [0, 1, 2] = [50, 50, 25]
     \<and> length (df_rows df) = 125"
proof -
  from echo_run obtain info w' where
    "batch_loop echo ids125 (py_range 0 (length ids125) 50) [] w0 = (Inr info, w')"
    and counts: "map (\<lambda>c. item_count (snd c)) (calls w') = [50, 50, 25]"
    by (cases "batch_loop echo ids125 (py_range 0 (length ids125) 50) [] w0";
        cases "fst (batch_loop echo ids125 (py_range 0 (length ids125) 50) [] w0)")
      auto
  then obtain df where run: "get_video_details echo ids125 w0 = (Inr df, w')"
    by (simp add: get_video_details_def)
  have upt: "[0..<batch_count ids125] = [0, 1, 2]"
    by (simp add: batch_count_def length_ids125 upt_conv_Cons)
  from details_batches [OF run] obtain tr where
    all: "calls w' = calls w0 @ tr
     \<and> map fst tr = map (\<lambda>k. videos_request (batch ids125 k)) [0..<batch_count ids125]
     \<and> length (df_rows df) = sum_list (map (\<lambda>c. item_count (snd c)) tr)
     \<and> (length ids125 = 125 \<longrightarrow>
          map (\<lambda>k. length (batch ids125 k)) [0..<batch_count ids125] = [50, 50, 25])
     \<and> ((\<forall>k<batch_count ids125.
            item_count (snd (tr ! k)) = length (batch ids125 k)) \<longrightarrow>
          length (df_rows df) = length ids125)"
    by (rule exE)
  then have tr: "calls w' = calls w0 @ tr"
      "map fst tr = map (\<lambda>k. videos_request (batch ids125 k)) [0..<batch_count ids125]"
      "length (df_rows df) = sum_list (map (\<lambda>c. item_count (snd c)) tr)"
      "length ids125 = 125 \<longrightarrow>
         map (\<lambda>k. length (batch ids125 k)) [0..<batch_count ids125] = [50, 50, 25]"
    by simp_all
  from tr(1) have "calls w' = tr" by (simp add: w0_def)
  with tr counts upt length_ids125 run show ?thesis by simp
qed

section \<open>Remote faults\<close>

lemma fault_ends_map_sum: "fault_ends tr res \<Longrightarrow> fault_ends tr (map_sum (\<lambda>e. e) f res)"
  by (induction tr res rule: fault_ends.induct) auto

lemma fault_ends_last:
  "fault_ends [(req, out)] (case out of Inl e \<Rightarrow> Inl e | Inr response \<Rightarrow> g response)"
  by (cases out) auto

lemma batch_loop_faults:
  "batch_loop exec video_ids offsets acc w = (res, w') \<Longrightarrow>
     \<exists>tr. calls w' = calls w @ tr \<and> fault_ends tr res"
proof (induction offsets arbitrary: acc w)
  case Nil
  then show ?case by simp
next
  case (Cons i offsets)
  let ?req = "videos_request (slice video_ids i (i + 50))"
  obtain out s1 where ex: "exec ?req (remote w) = (out, s1)"
    by (cases "exec ?req (remote w)")
  let ?w1 = "w\<lparr>remote := s1, calls := calls w @ [(?req, out)]\<rparr>"
  show ?case
  proof (cases out)
    case (Inl e)
    with Cons.prems ex have "res = Inl e" "calls w' = calls w @ [(?req, Inl e)]"
      by (auto simp: execute_def)
    then show ?thesis by simp
  next
    case (Inr response)
    show ?thesis
    proof (cases "append_records response acc")
      case (Inl e)
      with Cons.prems ex Inr have "calls w' = calls w @ [(?req, Inr response)]"
        by (auto simp: execute_def)
      then show ?thesis by simp
    next
      case (Inr acc1)
      with Cons.prems ex \<open>out = Inr response\<close>
      have "batch_loop exec video_ids offsets acc1 ?w1 = (res, w')"
        by (simp add: execute_def)
      from Cons.IH [OF this] obtain tr where
        "calls w' = calls ?w1 @ tr" "fault_ends tr res" by blast
      with \<open>out = Inr response\<close>
      have "calls w' = calls w @ ((?req, Inr response) # tr)
          \<and> fault_ends ((?req, Inr response) # tr) res"
        by simp
      then show ?thesis by blast
    qed
  qed
qed

lemma get_video_details_faults:
  assumes "get_video_details exec video_ids w = (res, w')"
  shows "\<exists>tr. calls w' = calls w @ tr \<and> fault_ends tr res"
proof -
  obtain r where
    loop: "batch_loop exec video_ids (py_range 0 (length video_ids) 50) [] w = (r, w')"
    and res: "res = map_sum (\<lambda>e. e) DataFrame r"
    using assms by (auto simp: get_video_details_def split: prod.splits sum.splits)
  from batch_loop_faults [OF loop] res show ?thesis
    by (auto intro: fault_ends_map_sum)
qed

lemma get_channel_stats_faults:
  assumes "get_channel_stats exec channel_ids w = (res, w')"
  shows "\<exists>tr. calls w' = calls w @ tr \<and> fault_ends tr res"
proof -
  let ?req = "channels_request channel_ids"
  obtain out s1 where ex: "exec ?req (remote w) = (out, s1)"
    by (cases "exec ?req (remote w)")
  with assms have "calls w' = calls w @ [(?req, out)] \<and> fault_ends [(?req, out)] res"
    by (cases out) (auto simp: get_channel_stats_def execute_def)
  then show ?thesis by blast
qed

text \<open>
  C8. A remote fault during \<open>get_channel_stats\<close>, \<open>get_video_ids\<close> or
  \<open>get_video_details\<close> is what the caller gets, as it was raised. For
  \<open>get_channel_stats\<close> and \<open>get_video_details\<close>: a fault among the calls that the
  operation made is its last call, so nothing is tried again, and it is the result, so no
  table is returned. For \<open>get_video_ids\<close>: when a page request fails after any number
  of pages, the operation returns with that fault, having made no call after it.
\<close>

theorem remote_fault_propagates:
  "(get_channel_stats exec channel_ids w = (stats, w1)
      \<longrightarrow> (\<exists>tr. calls w1 = calls w @ tr \<and> fault_ends tr stats))
 \<and> (follow exec playlist_id None (remote w) pages = Some (Inl e, s')
      \<longrightarrow> get_video_ids exec playlist_id w =
            Some (Inl e, w\<lparr>remote := s',
                    calls := calls w @ dialogue playlist_id None pages (Inl e)\<rparr>))
 \<and> (get_video_details exec video_ids w = (details, w3)
      \<longrightarrow> (\<exists>tr. calls w3 = calls w @ tr \<and> fault_ends tr details))"
proof (intro conjI impI)
  assume "get_channel_stats exec channel_ids w = (stats, w1)"
  then show "\<exists>tr. calls w1 = calls w @ tr \<and> fault_ends tr stats"
    by (rule get_channel_stats_faults)
next
  assume f: "follow exec playlist_id None (remote w) pages = Some (Inl e, s')"
  have "terminal (Inl e)" by (simp add: terminal_def)
  from get_video_ids_follow [OF f this]
  show "get_video_ids exec playlist_id w =
      Some (Inl e, w\<lparr>remote := s',
              calls := calls w @ dialogue playlist_id None pages (Inl e)\<rparr>)"
    by (simp add: finish_def)
next
  assume "get_video_details exec video_ids w = (details, w3)"
  then show "\<exists>tr. calls w3 = calls w @ tr \<and> fault_ends tr details"
    by (rule get_video_details_faults)
qed

text \<open>
  A service that refuses every call, and a collection whose third page request fails.
\<close>

theorem remote_fault_propagates_witness:
  "get_channel_stats quota_exceeded [''UC1''] w0 =
     (Inl (HttpError ''403'' ''quotaExceeded''),
      w0\<lparr>calls :=
        [(channels_request [''UC1''], Inl (HttpError ''403'' ''quotaExceeded''))]\<rparr>)
   \<and> (\<exists>tr. calls (w0\<lparr>calls :=
          [(channels_request [''UC1''], Inl (HttpError ''403'' ''quotaExceeded''))]\<rparr>)
          = calls w0 @ tr
        \<and> fault_ends tr (Inl (HttpError ''403'' ''quotaExceeded'') :: error + dataframe))
   \<and> follow two_pages_then_fault ''PL1'' None (remote w0) [page_A, page_B]
       = Some (Inl (HttpError ''503'' ''backendError''), ())
   \<and> get_video_ids two_pages_then_fault ''PL1'' w0 =
       Some (Inl (HttpError ''503'' ''backendError''),
         w0\<lparr>remote := (), calls := calls w0 @ dialogue ''PL1'' None [page_A, page_B]
             (Inl (HttpError ''503'' ''backendError''))\<rparr>)
   \<and> get_video_details quota_exceeded [''v1'', ''v2''] w0 =
     (Inl (HttpError ''403'' ''quotaExceeded''),
      w0\<lparr>calls :=
        [(videos_request [''v1'', ''v2''], Inl (HttpError ''403'' ''quotaExceeded''))]\<rparr>)
   \<and> (\<exists>tr. calls (w0\<lparr>calls :=
          [(videos_request [''v1'', ''v2''], Inl (HttpError ''403'' ''quotaExceeded''))]\<rparr>)
          = calls w0 @ tr
        \<and> fault_ends tr (Inl (HttpError ''403'' ''quotaExceeded'') :: error + dataframe))"
proof -
  have h1: "get_channel_stats quota_exceeded [''UC1''] w0 =
     (Inl (HttpError ''403'' ''quotaExceeded''),
      w0\<lparr>calls :=
        [(channels_request [''UC1''], Inl (HttpError ''403'' ''quotaExceeded''))]\<rparr>)"
    by (simp add: get_channel_stats_def execute_def quota_exceeded_def w0_def)
  have h2: "follow two_pages_then_fault ''PL1'' None (remote w0) [page_A, page_B]
       = Some (Inl (HttpError ''503'' ''backendError''), ())"
    by (simp add: two_pages_then_fault_def playlist_request_def page_A_def page_B_def
        page_refs_def page_token_def playlist_item_def nested_def)
  have h3: "get_video_details quota_exceeded [''v1'', ''v2''] w0 =
     (Inl (HttpError ''403'' ''quotaExceeded''),
      w0\<lparr>calls :=
        [(videos_request [''v1'', ''v2''], Inl (HttpError ''403'' ''quotaExceeded''))]\<rparr>)"
    by (simp add: get_video_details_def py_range.simps slice_def execute_def
        quota_exceeded_def w0_def)
  have c1: "\<exists>tr. calls (w0\<lparr>calls :=
          [(channels_request [''UC1''], Inl (HttpError ''403'' ''quotaExceeded''))]\<rparr>)
          = calls w0 @ tr
        \<and> fault_ends tr (Inl (HttpError ''403'' ''quotaExceeded'') :: error + dataframe)"
    using conjunct1 [OF remote_fault_propagates] h1 by (rule mp)
  have c2: "get_video_ids two_pages_then_fault ''PL1'' w0 =
       Some (Inl (HttpError ''503'' ''backendError''),
         w0\<lparr>remote := (), calls := calls w0 @ dialogue ''PL1'' None [page_A, page_B]
             (Inl (HttpError ''503'' ''backendError''))\<rparr>)"
    using conjunct1 [OF conjunct2 [OF remote_fault_propagates]] h2 by (rule mp)
  have c3: "\<exists>tr. calls (w0\<lparr>calls :=
          [(videos_request [''v1'', ''v2''], Inl (HttpError ''403'' ''quotaExceeded''))]\<rparr>)
          = calls w0 @ tr
        \<and> fault_ends tr (Inl (HttpError ''403'' ''quotaExceeded'') :: error + dataframe)"
    using conjunct2 [OF conjunct2 [OF remote_fault_propagates]] h3 by (rule mp)
  from h1 c1 h2 c2 h3 c3 show ?thesis by (intro conjI)
qed

end
